theory Spec2Isabelle
  imports Main
begin

section \<open>JavaScript strings and the library functions the code calls\<close>

text \<open>
  A JavaScript string is modelled as a \<^typ>\<open>string\<close>: a list of code units, each below 256
  (the Latin-1 range of UTF-16). Every character class below is the class of the source
  restricted to that range.
\<close>

definition isWhiteSpace :: "char \<Rightarrow> bool" where
  \<comment> \<open>\<open>\s\<close> and the characters \<open>trim\<close> strips: TAB, LF, VT, FF, CR, SP, NBSP.\<close>
  "isWhiteSpace c = (c \<in> set [CHR 0x09, CHR 0x0A, CHR 0x0B, CHR 0x0C, CHR 0x0D, CHR 0x20, CHR 0xA0])"

definition isLineTerminator :: "char \<Rightarrow> bool" where
  \<comment> \<open>the characters the regular expression \<open>.\<close> refuses: LF and CR.\<close>
  "isLineTerminator c = (c = CHR 0x0A \<or> c = CHR 0x0D)"

definition isDigit :: "char \<Rightarrow> bool" where
  "isDigit c = (c \<in> set ''0123456789'')"

definition isLower :: "char \<Rightarrow> bool" where
  "isLower c = (c \<in> set ''abcdefghijklmnopqrstuvwxyz'')"

definition isUpper :: "char \<Rightarrow> bool" where
  "isUpper c = (c \<in> set ''ABCDEFGHIJKLMNOPQRSTUVWXYZ'')"

definition isHexDigit :: "char \<Rightarrow> bool" where
  \<comment> \<open>\<open>[a-fA-F0-9]\<close>\<close>
  "isHexDigit c = (c \<in> set ''abcdefABCDEF0123456789'')"

definition isAlnumHyphen :: "char \<Rightarrow> bool" where
  \<comment> \<open>\<open>[a-zA-Z0-9-]\<close>\<close>
  "isAlnumHyphen c = (isLower c \<or> isUpper c \<or> isDigit c \<or> c = CHR ''-'')"

definition toLowerCaseChar :: "char \<Rightarrow> char" where
  \<comment> \<open>\<open>toLowerCase\<close> on one code unit below 256: A-Z and the Latin-1 capitals move up by 32.\<close>
  "toLowerCaseChar c =
     (let n = (of_char c :: nat)
      in if 65 \<le> n \<and> n \<le> 90 then char_of (n + 32)
         else if 192 \<le> n \<and> n \<le> 222 \<and> n \<noteq> 215 then char_of (n + 32)
         else c)"

definition toLowerCase :: "string \<Rightarrow> string" where
  "toLowerCase s = map toLowerCaseChar s"

definition trim :: "string \<Rightarrow> string" where
  "trim s = rev (dropWhile isWhiteSpace (rev (dropWhile isWhiteSpace s)))"

fun stripPrefix :: "string \<Rightarrow> string \<Rightarrow> string option" where
  "stripPrefix [] s = Some s"
| "stripPrefix (p # ps) [] = None"
| "stripPrefix (p # ps) (c # cs) = (if p = c then stripPrefix ps cs else None)"

fun includesStr :: "string \<Rightarrow> string \<Rightarrow> bool" where
  \<comment> \<open>\<open>s.includes(sub)\<close>\<close>
  "includesStr [] sub = (sub = [])"
| "includesStr (c # cs) sub =
     (case stripPrefix sub (c # cs) of Some rest \<Rightarrow> True | None \<Rightarrow> includesStr cs sub)"

fun split :: "char \<Rightarrow> string \<Rightarrow> string list" where
  \<comment> \<open>\<open>s.split(sep)\<close> for a one-character separator; the empty string splits into one empty piece.\<close>
  "split sep [] = [[]]"
| "split sep (c # cs) =
     (if c = sep then [] # split sep cs
      else (case split sep cs of [] \<Rightarrow> [[c]] | p # ps \<Rightarrow> (c # p) # ps))"

definition at :: "'a list \<Rightarrow> int \<Rightarrow> 'a option" where
  \<comment> \<open>\<open>xs[i]\<close>: \<open>undefined\<close> (here \<open>None\<close>) outside the array.\<close>
  "at xs i = (if 0 \<le> i \<and> i < int (length xs) then Some (xs ! nat i) else None)"

fun indexOf :: "'a list \<Rightarrow> 'a \<Rightarrow> int" where
  \<comment> \<open>\<open>xs.indexOf(x)\<close>: the first index holding \<open>x\<close>, or -1.\<close>
  "indexOf [] x = -1"
| "indexOf (y # ys) x = (if y = x then 0 else (let i = indexOf ys x in if i < 0 then -1 else i + 1))"

fun firstMatch :: "(string \<Rightarrow> 'a option) \<Rightarrow> string \<Rightarrow> 'a option" where
  \<comment> \<open>an unanchored regular expression: the match at the leftmost start position that has one.\<close>
  "firstMatch m [] = m []"
| "firstMatch m (c # cs) = (case m (c # cs) of Some r \<Rightarrow> Some r | None \<Rightarrow> firstMatch m cs)"

subsection \<open>Numbers\<close>

text \<open>
  A JavaScript number that holds an integer is modelled by that integer; the model is exact
  for magnitudes below \<open>2^53\<close>.
\<close>

definition digitChar :: "nat \<Rightarrow> char" where
  "digitChar d = ''0123456789'' ! d"

fun natToString :: "nat \<Rightarrow> string" where
  "natToString n = (if n < 10 then [digitChar n] else natToString (n div 10) @ [digitChar (n mod 10)])"

declare natToString.simps [simp del]

definition numberToString :: "int \<Rightarrow> string" where
  \<comment> \<open>\<open>n.toString()\<close> and \<open>`${n}`\<close> for an integer \<open>n\<close>.\<close>
  "numberToString n = (if n < 0 then CHR ''-'' # natToString (nat (- n)) else natToString (nat n))"

definition hexValue :: "char \<Rightarrow> nat" where
  "hexValue c =
     (let n = (of_char c :: nat)
      in if isDigit c then n - 48 else if isUpper c then n - 55 else n - 87)"

definition digitsValue :: "nat \<Rightarrow> string \<Rightarrow> nat" where
  \<comment> \<open>the value of a digit string in the given radix, most significant digit first.\<close>
  "digitsValue radix ds = foldl (\<lambda>acc c. acc * radix + hexValue c) 0 ds"

definition parseInt :: "string \<Rightarrow> int option" where
  \<comment> \<open>\<open>parseInt(s)\<close> with no radix: leading white space, a sign, a \<open>0x\<close> prefix for radix 16,
      then the longest run of digits; \<open>None\<close> is \<open>NaN\<close>.\<close>
  "parseInt s =
     (let s1 = dropWhile isWhiteSpace s;
          neg = (s1 \<noteq> [] \<and> hd s1 = CHR ''-'');
          s2 = (if s1 \<noteq> [] \<and> (hd s1 = CHR ''-'' \<or> hd s1 = CHR ''+'') then tl s1 else s1);
          hex = (take 2 s2 = ''0x'' \<or> take 2 s2 = ''0X'');
          s3 = (if hex then drop 2 s2 else s2);
          ds = takeWhile (if hex then isHexDigit else isDigit) s3
      in if ds = [] then None
         else Some ((if neg then -1 else 1) * int (digitsValue (if hex then 16 else 10) ds)))"

subsection \<open>The file-name sanitiser (deployment-info.ts)\<close>

function replaceWhitespaceRuns :: "string \<Rightarrow> string" where
  \<comment> \<open>\<open>.replace(/\s+/g, '-')\<close>: every maximal run of white space becomes one hyphen.\<close>
  "replaceWhitespaceRuns [] = []"
| "replaceWhitespaceRuns (c # cs) =
     (if isWhiteSpace c then CHR ''-'' # replaceWhitespaceRuns (dropWhile isWhiteSpace cs)
      else c # replaceWhitespaceRuns cs)"
  by pat_completeness auto
termination
  by (relation "measure length") (auto simp: le_imp_less_Suc length_dropWhile_le)

definition sanitizeFileName :: "string \<Rightarrow> string" where
  "sanitizeFileName name =
     toLowerCase
       (filter isAlnumHyphen
         (replaceWhitespaceRuns
           (map (\<lambda>c. if c = CHR ''/'' then CHR ''-'' else c) name)))"

definition currentJobFileBasename :: "int \<Rightarrow> string \<Rightarrow> string \<Rightarrow> string" where
  \<comment> \<open>the three arguments are \<open>github.context.runNumber\<close>, \<open>.workflow\<close> and \<open>.job\<close>.\<close>
  "currentJobFileBasename runNumber workflow job =
     sanitizeFileName (numberToString runNumber @ ''-'' @ workflow @ ''-'' @ job)"

section \<open>The log scanner and the correlator (foundry-logs.ts)\<close>

text \<open>
  A property of a JavaScript object is in one of four conditions, and \<open>Object.keys\<close> tells the
  first from the other three: the key is not there, or it is there and holds \<open>undefined\<close>,
  \<open>null\<close> or a value.
\<close>

datatype 'a slot = NoKey | Undefined | Null | Val 'a

record Contract =
  address :: "string slot"
  chain :: "string slot"
  verificationStatus :: "string slot"
  compiler :: "string slot"
  optimizations :: "int slot"
  contractPath :: "string slot"
  contractName :: "string slot"

record VirtualTestNet =
  vnetId :: string
  adminRpcUrl :: string
  publicRpcUrl :: string
  networkId :: string
  chainId :: int
  testnetSlug :: string
  explorerUrl :: "string option"

record DeploymentGroup =
  virtualTestNet :: VirtualTestNet
  contracts :: "Contract list"

record WorkflowInfo =
  runNumber :: int
  workflowName :: string
  job :: string
  runId :: int

record ParsedDeployments =
  workflow :: WorkflowInfo
  deployments :: "DeploymentGroup list"

record InfrastructureInfo =
  networks :: "(string \<times> VirtualTestNet) list"
  timestamp :: string
  githubContext :: "string \<times> string \<times> string \<times> string"

text \<open>
  \<open>networks\<close> lists the entries of the \<open>networks\<close> object in the order in which
  \<open>Object.values\<close> enumerates them; \<open>vnetId\<close> is the field \<open>id\<close>.
\<close>

definition objectValues :: "('k \<times> 'v) list \<Rightarrow> 'v list" where
  "objectValues obj = map snd obj"

datatype error = IoError | MissingSnapshotError

definition emptyContract :: Contract where
  \<comment> \<open>the object \<open>{}\<close>\<close>
  "emptyContract =
     \<lparr>address = NoKey, chain = NoKey, verificationStatus = NoKey, compiler = NoKey,
      optimizations = NoKey, contractPath = NoKey, contractName = NoKey\<rparr>"

definition keyCount :: "Contract \<Rightarrow> nat" where
  \<comment> \<open>\<open>Object.keys(c).length\<close>\<close>
  "keyCount c =
     length (filter (\<lambda>present. present)
       [address c \<noteq> NoKey, chain c \<noteq> NoKey, verificationStatus c \<noteq> NoKey,
        compiler c \<noteq> NoKey, optimizations c \<noteq> NoKey, contractPath c \<noteq> NoKey,
        contractName c \<noteq> NoKey])"

definition matchAddressAt :: "string \<Rightarrow> string option" where
  \<comment> \<open>\<open>/`(0x[a-fA-F0-9]+)`/\<close> anchored at the head of the text; the result is group 1.\<close>
  "matchAddressAt s =
     (case stripPrefix ''`0x'' s of
        None \<Rightarrow> None
      | Some r \<Rightarrow>
          (let h = takeWhile isHexDigit r; rest = dropWhile isHexDigit r
           in if h \<noteq> [] \<and> stripPrefix ''`'' rest \<noteq> None then Some (''0x'' @ h) else None))"

definition matchChainAt :: "string \<Rightarrow> string option" where
  \<comment> \<open>\<open>/deployed on (\d+)/\<close> anchored at the head of the text.\<close>
  "matchChainAt s =
     (case stripPrefix ''deployed on '' s of
        None \<Rightarrow> None
      | Some r \<Rightarrow> (let d = takeWhile isDigit r in if d \<noteq> [] then Some d else None))"

definition matchBracketAt :: "string \<Rightarrow> string option" where
  \<comment> \<open>\<open>/\[(.*?)\]/\<close> anchored at the head of the text: up to the first \<open>]\<close>, with no line
      terminator before it.\<close>
  "matchBracketAt s =
     (case stripPrefix ''['' s of
        None \<Rightarrow> None
      | Some r \<Rightarrow>
          (let mid = takeWhile (\<lambda>c. c \<noteq> CHR '']'') r; rest = dropWhile (\<lambda>c. c \<noteq> CHR '']'') r
           in if rest \<noteq> [] \<and> \<not> list_ex isLineTerminator mid then Some mid else None))"

definition matchResponseAt :: "string \<Rightarrow> string option" where
  \<comment> \<open>\<open>/Response: `(.+)`/\<close> anchored at the head of the text: the greedy group runs to the last
      backtick before any line terminator, and holds at least one character.\<close>
  "matchResponseAt s =
     (case stripPrefix ''Response: `'' s of
        None \<Rightarrow> None
      | Some r \<Rightarrow>
          (let run = takeWhile (\<lambda>c. \<not> isLineTerminator c) r;
               back = dropWhile (\<lambda>c. c \<noteq> CHR ''`'') (rev run)
           in if length back \<ge> 2 then Some (rev (tl back)) else None))"

definition orEmpty :: "string option \<Rightarrow> string" where
  \<comment> \<open>\<open>m?.[1] || ''\<close>\<close>
  "orEmpty m = (case m of None \<Rightarrow> [] | Some g \<Rightarrow> g)"

definition orNull :: "string option \<Rightarrow> string slot" where
  \<comment> \<open>\<open>x || null\<close> on a string or \<open>undefined\<close>: the empty string is falsy.\<close>
  "orNull m = (case m of None \<Rightarrow> Null | Some g \<Rightarrow> if g = [] then Null else Val g)"

definition numberOrNull :: "int option \<Rightarrow> int slot" where
  \<comment> \<open>\<open>n || null\<close> on a number: \<open>NaN\<close> and zero are falsy.\<close>
  "numberOrNull m = (case m of None \<Rightarrow> Null | Some n \<Rightarrow> if n = 0 then Null else Val n)"

record scan_state =
  currentContract :: Contract
  fileContracts :: "Contract list"
  isInDeploymentSection :: bool

text \<open>\<open>fileContracts\<close> is the local array \<open>contracts\<close> of the loop over the files.\<close>

definition initialState :: scan_state where
  "initialState = \<lparr>currentContract = emptyContract, fileContracts = [], isInDeploymentSection = False\<rparr>"

definition flush :: "scan_state \<Rightarrow> Contract list" where
  \<comment> \<open>\<open>if (Object.keys(currentContract).length > 0) contracts.push(currentContract)\<close>\<close>
  "flush st =
     (if keyCount (currentContract st) > 0 then fileContracts st @ [currentContract st]
      else fileContracts st)"

definition submitting :: "string \<Rightarrow> Contract \<Rightarrow> Contract" where
  "submitting line c =
     (case firstMatch matchBracketAt line of
        None \<Rightarrow> c
      | Some g \<Rightarrow>
          (let parts = split CHR '':'' g
           in c\<lparr>contractPath := (case at parts 0 of None \<Rightarrow> Undefined | Some p \<Rightarrow> Val p),
                contractName := (case at parts 1 of None \<Rightarrow> Undefined | Some p \<Rightarrow> Val p)\<rparr>))"

definition statusAfter :: "string list \<Rightarrow> string \<Rightarrow> string slot" where
  \<comment> \<open>\<open>lines[lines.indexOf(line) + 1]?.match(/Response: `(.+)`/)?.[1] || null\<close>\<close>
  "statusAfter lines line =
     (case at lines (indexOf lines line + 1) of
        None \<Rightarrow> Null
      | Some next \<Rightarrow> orNull (firstMatch matchResponseAt next))"

definition scanLine :: "string list \<Rightarrow> scan_state \<Rightarrow> string \<Rightarrow> scan_state" where
  \<comment> \<open>one turn of the loop over the lines of a file.\<close>
  "scanLine lines st line =
     (if trim line = ''##'' then st\<lparr>isInDeploymentSection := True\<rparr>
      else if isInDeploymentSection st then
        (if includesStr line ''Start verifying contract'' then
           st\<lparr>fileContracts := flush st,
              currentContract :=
                \<lparr>address = Val (orEmpty (firstMatch matchAddressAt line)),
                 chain = Val (orEmpty (firstMatch matchChainAt line)),
                 verificationStatus = Null, compiler = NoKey, optimizations = NoKey,
                 contractPath = NoKey, contractName = NoKey\<rparr>\<rparr>
         else if includesStr line ''Compiler version:'' then
           st\<lparr>currentContract := (currentContract st)
                \<lparr>compiler := orNull (map_option trim (at (split CHR '':'' line) 1))\<rparr>\<rparr>
         else if includesStr line ''Optimizations:'' then
           st\<lparr>currentContract := (currentContract st)
                \<lparr>optimizations :=
                   numberOrNull (case at (split CHR '':'' line) 1 of
                                   None \<Rightarrow> None | Some p \<Rightarrow> parseInt (trim p))\<rparr>\<rparr>
         else if includesStr line ''Submitting verification for'' then
           st\<lparr>currentContract := submitting line (currentContract st)\<rparr>
         else if includesStr line ''Contract verification status:'' then
           st\<lparr>currentContract := (currentContract st)
                \<lparr>verificationStatus := statusAfter lines line\<rparr>\<rparr>
         else st)
      else st)"

definition scanLines :: "string list \<Rightarrow> scan_state" where
  "scanLines lines = foldl (scanLine lines) initialState lines"

definition scanFile :: "string \<Rightarrow> Contract list" where
  \<comment> \<open>the array \<open>contracts\<close> of one file, after the flush at the end of its lines.\<close>
  "scanFile content = flush (scanLines (split CHR 0x0A content))"

definition pushMatching ::
  "Contract list \<Rightarrow> DeploymentGroup list \<Rightarrow> VirtualTestNet \<Rightarrow> DeploymentGroup list" where
  \<comment> \<open>one turn of the loop over the networks.\<close>
  "pushMatching cs groups network =
     (let matchingContracts = filter (\<lambda>c. chain c = Val (numberToString (chainId network))) cs
      in if length matchingContracts > 0
         then groups @ [\<lparr>virtualTestNet = network, contracts = matchingContracts\<rparr>]
         else groups)"

fun fileLoop ::
  "(string \<Rightarrow> string option) \<Rightarrow> VirtualTestNet list \<Rightarrow> string list \<Rightarrow>
   DeploymentGroup list \<Rightarrow> error + DeploymentGroup list" where
  \<comment> \<open>the loop over \<open>jsonFiles\<close>; \<open>readFile\<close> is keyed by the directory entry and is \<open>None\<close>
      where reading throws.\<close>
  "fileLoop readFile nets [] groups = Inr groups"
| "fileLoop readFile nets (file # files) groups =
     (case readFile file of
        None \<Rightarrow> Inl IoError
      | Some content \<Rightarrow>
          fileLoop readFile nets files (foldl (pushMatching (scanFile content)) groups nets))"

definition extname :: "string \<Rightarrow> string" where
  \<comment> \<open>\<open>path.extname\<close> on a directory entry (a name with no slash): from the last dot on, and
      empty when nothing but dots precedes that dot in \<open>.x\<close> and \<open>..\<close>.\<close>
  "extname p =
     (let ext = rev (takeWhile (\<lambda>c. c \<noteq> CHR ''.'') (rev p));
          pre = take (length p - length ext - 1) p
      in if \<not> list_ex (\<lambda>c. c = CHR ''.'') p then []
         else if pre = [] then []
         else if pre = ''.'' \<and> ext = [] then []
         else CHR ''.'' # ext)"

definition readInfraForCurrentJob ::
  "string option \<Rightarrow> (string \<Rightarrow> InfrastructureInfo option) \<Rightarrow> InfrastructureInfo option" where
  \<comment> \<open>\<open>readResult\<close> is the text of the infrastructure file of the current job (\<open>None\<close> where
      reading throws), \<open>jsonParse\<close> is \<open>JSON.parse\<close> with \<open>None\<close> for a throw or \<open>null\<close>; every
      failure is caught and gives \<open>null\<close>.\<close>
  "readInfraForCurrentJob readResult jsonParse =
     (case readResult of None \<Rightarrow> None | Some content \<Rightarrow> jsonParse content)"

definition parseDeploymentLogs ::
  "string list option \<Rightarrow> (string \<Rightarrow> string option) \<Rightarrow> InfrastructureInfo option \<Rightarrow>
   WorkflowInfo \<Rightarrow> error + ParsedDeployments" where
  \<comment> \<open>\<open>readdir\<close> is the listing of \<open>tmpDirPath\<close> (\<open>None\<close> where listing throws), \<open>infraInfo\<close>
      what \<open>readInfraForCurrentJob()\<close> returns, \<open>ctx\<close> is \<open>github.context\<close>.\<close>
  "parseDeploymentLogs readdir readFile infraInfo ctx =
     (case readdir of
        None \<Rightarrow> Inl IoError
      | Some files \<Rightarrow>
          (let jsonFiles = filter (\<lambda>file. extname file = ''.json'') files
           in case infraInfo of
                None \<Rightarrow> Inl MissingSnapshotError
              | Some infra \<Rightarrow>
                  (case fileLoop readFile (objectValues (networks infra)) jsonFiles [] of
                     Inl e \<Rightarrow> Inl e
                   | Inr deploymentGroups \<Rightarrow>
                       Inr \<lparr>workflow = ctx, deployments = deploymentGroups\<rparr>)))"

section \<open>The persister (cleanup.ts)\<close>

datatype fs_op = Rm string | WriteFile string string

definition persistDeployment ::
  "string \<Rightarrow> (ParsedDeployments \<Rightarrow> string) \<Rightarrow> WorkflowInfo \<Rightarrow> ParsedDeployments \<Rightarrow> fs_op" where
  \<comment> \<open>the one write of the report; \<open>stringify\<close> is \<open>JSON.stringify(_, null, 2)\<close>.\<close>
  "persistDeployment buildOutDir stringify ctx deploymentLogs =
     WriteFile
       (buildOutDir @ ''/'' @
        currentJobFileBasename (runNumber ctx) (workflowName ctx) (job ctx) @
        ''-deployments.json'')
       (stringify deploymentLogs)"

definition persistDeploymentInfo ::
  "string \<Rightarrow> string \<Rightarrow> (ParsedDeployments \<Rightarrow> string) \<Rightarrow> (fs_op \<Rightarrow> bool) \<Rightarrow>
   string list option \<Rightarrow> (string \<Rightarrow> string option) \<Rightarrow> InfrastructureInfo option \<Rightarrow>
   WorkflowInfo \<Rightarrow> fs_op list \<times> (error + unit)" where
  \<comment> \<open>the operations issued on the file system, in order, and the outcome; \<open>writeOk\<close> tells
      whether a write succeeds, the last four arguments are those of \<open>parseDeploymentLogs\<close>.\<close>
  "persistDeploymentInfo tmpBuildOutDir buildOutDir stringify writeOk readdir readFile infraInfo ctx =
     (case parseDeploymentLogs readdir readFile infraInfo ctx of
        Inl e \<Rightarrow> ([], Inl e)
      | Inr deploymentInfo \<Rightarrow>
          (if length (deployments deploymentInfo) > 0
           then ([Rm tmpBuildOutDir, persistDeployment buildOutDir stringify ctx deploymentInfo],
                 if writeOk (persistDeployment buildOutDir stringify ctx deploymentInfo)
                 then Inr () else Inl IoError)
           else ([Rm tmpBuildOutDir], Inr ())))"

section \<open>A concrete run\<close>

text \<open>The inputs at which the closed theorems below evaluate the code.\<close>

definition exampleNet :: VirtualTestNet where
  "exampleNet =
     \<lparr>vnetId = ''vnet-1'', adminRpcUrl = ''https://admin'', publicRpcUrl = ''https://public'',
      networkId = ''1'', chainId = 1, testnetSlug = ''slug'', explorerUrl = None\<rparr>"

definition exampleInfra :: InfrastructureInfo where
  "exampleInfra =
     \<lparr>networks = [(''1'', exampleNet)], timestamp = ''2025-01-01T00:00:00.000Z'',
      githubContext = (''CI'', ''7'', ''42'', ''build'')\<rparr>"

definition exampleCtx :: WorkflowInfo where
  "exampleCtx = \<lparr>runNumber = 42, workflowName = ''CI'', job = ''build'', runId = 7\<rparr>"

definition exampleLog :: string where
  "exampleLog = ''##\<newline>Start verifying contract `0xAB` deployed on 1''"

definition exampleReadFile :: "string \<Rightarrow> string option" where
  \<comment> \<open>a directory in which every file holds \<open>exampleLog\<close>\<close>
  "exampleReadFile file = Some exampleLog"

definition exampleJsonParse :: "string \<Rightarrow> InfrastructureInfo option" where
  \<comment> \<open>a parser under which every text is \<open>exampleInfra\<close>\<close>
  "exampleJsonParse content = Some exampleInfra"

definition exampleContract :: Contract where
  "exampleContract =
     \<lparr>address = Val ''0xAB'', chain = Val ''1'', verificationStatus = Null, compiler = NoKey,
      optimizations = NoKey, contractPath = NoKey, contractName = NoKey\<rparr>"

section \<open>The correlation, in the words of the specification\<close>

definition matchesNet :: "VirtualTestNet \<Rightarrow> Contract \<Rightarrow> bool" where
  "matchesNet network c = (chain c = Val (numberToString (chainId network)))"

definition correlateSpec :: "Contract list \<Rightarrow> VirtualTestNet list \<Rightarrow> DeploymentGroup list" where
  \<comment> \<open>for each environment in order, all records of its chain, as one group when there are any.\<close>
  "correlateSpec records nets =
     concat (map (\<lambda>network.
                    if filter (matchesNet network) records = [] then []
                    else [\<lparr>virtualTestNet = network,
                           contracts = filter (matchesNet network) records\<rparr>]) nets)"

definition isFieldLine :: "string \<Rightarrow> bool" where
  \<comment> \<open>a line that one of the four field branches of the scanner answers to.\<close>
  "isFieldLine line =
     (includesStr line ''Compiler version:'' \<or> includesStr line ''Optimizations:'' \<or>
      includesStr line ''Submitting verification for'' \<or>
      includesStr line ''Contract verification status:'')"

section \<open>The run key\<close>

lemma toLowerCaseChar_upper: "isUpper c \<Longrightarrow> isLower (toLowerCaseChar c)"
  unfolding isUpper_def
  apply (simp only: set_simps insert_iff empty_iff)
  apply (elim disjE FalseE; hypsubst; code_simp)
  done

lemma toLowerCaseChar_lower: "isLower c \<Longrightarrow> toLowerCaseChar c = c"
  unfolding isLower_def
  apply (simp only: set_simps insert_iff empty_iff)
  apply (elim disjE FalseE; hypsubst; code_simp)
  done

lemma toLowerCaseChar_digit: "isDigit c \<Longrightarrow> toLowerCaseChar c = c"
  unfolding isDigit_def
  apply (simp only: set_simps insert_iff empty_iff)
  apply (elim disjE FalseE; hypsubst; code_simp)
  done

lemma toLowerCaseChar_hyphen: "toLowerCaseChar CHR ''-'' = CHR ''-''"
  by code_simp

lemma lower_not_others: "isLower c \<Longrightarrow> c \<noteq> CHR ''/'' \<and> \<not> isUpper c \<and> \<not> isWhiteSpace c"
  unfolding isLower_def isUpper_def isWhiteSpace_def by auto

lemma digit_not_others: "isDigit c \<Longrightarrow> c \<noteq> CHR ''/'' \<and> \<not> isUpper c \<and> \<not> isWhiteSpace c"
  unfolding isDigit_def isUpper_def isWhiteSpace_def by auto

lemma hyphen_not_others:
  "CHR ''-'' \<noteq> CHR ''/'' \<and> \<not> isUpper CHR ''-'' \<and> \<not> isWhiteSpace CHR ''-''"
  unfolding isUpper_def isWhiteSpace_def by auto

lemma sanitize_chars:
  assumes "c \<in> set (sanitizeFileName name)"
  shows "isLower c \<or> isDigit c \<or> c = CHR ''-''"
proof -
  from assms obtain d where d: "isAlnumHyphen d" and c: "c = toLowerCaseChar d"
    by (auto simp: sanitizeFileName_def toLowerCase_def)
  from d show ?thesis unfolding c isAlnumHyphen_def
    using toLowerCaseChar_upper toLowerCaseChar_lower toLowerCaseChar_digit toLowerCaseChar_hyphen
    by auto
qed

text \<open>
  C6. The key of a run, \<open>currentJobFileBasename\<close>, is a function of the run number, the
  workflow name and the job name: equal inputs give equal keys. Every character of the key is
  a lower-case letter, a digit or a hyphen; so the key holds no slash, no upper-case letter
  and no white space.
\<close>

theorem keyForRun_safe:
  "(rn = rn' \<and> wfl = wfl' \<and> jb = jb' \<longrightarrow>
      currentJobFileBasename rn wfl jb = currentJobFileBasename rn' wfl' jb') \<and>
   (\<forall>c \<in> set (currentJobFileBasename rn wfl jb).
      (isLower c \<or> isDigit c \<or> c = CHR ''-'') \<and>
      c \<noteq> CHR ''/'' \<and> \<not> isUpper c \<and> \<not> isWhiteSpace c)"
proof (intro conjI impI ballI)
  fix c assume "c \<in> set (currentJobFileBasename rn wfl jb)"
  then have k: "isLower c \<or> isDigit c \<or> c = CHR ''-''"
    unfolding currentJobFileBasename_def by (rule sanitize_chars)
  then show "isLower c \<or> isDigit c \<or> c = CHR ''-''" .
  from k show "c \<noteq> CHR ''/''"
    using lower_not_others digit_not_others hyphen_not_others by blast
  from k show "\<not> isUpper c"
    using lower_not_others digit_not_others hyphen_not_others by blast
  from k show "\<not> isWhiteSpace c"
    using lower_not_others digit_not_others hyphen_not_others by blast
qed simp

theorem keyForRun_safe_witness:
  "currentJobFileBasename 42 ''My Work/Flow  x'' ''Job_1 A'' = ''42-my-work-flow-x-job1-a'' \<and>
   list_all (\<lambda>c. (isLower c \<or> isDigit c \<or> c = CHR ''-'') \<and>
                 c \<noteq> CHR ''/'' \<and> \<not> isUpper c \<and> \<not> isWhiteSpace c)
     (currentJobFileBasename 42 ''My Work/Flow  x'' ''Job_1 A'')"
proof -
  have e: "currentJobFileBasename 42 ''My Work/Flow  x'' ''Job_1 A'' = ''42-my-work-flow-x-job1-a''"
    by code_simp
  note r = keyForRun_safe [of 42 42 "''My Work/Flow  x''" "''My Work/Flow  x''"
                              "''Job_1 A''" "''Job_1 A''", THEN conjunct2]
  show ?thesis using e r unfolding list_all_iff by (intro conjI)
qed

section \<open>The loops over the networks and over the files\<close>

lemma pushMatching_spec:
  "pushMatching cs groups network = groups @ correlateSpec cs [network]"
proof -
  have m: "matchesNet network = (\<lambda>c. chain c = Val (numberToString (chainId network)))"
    by (rule ext) (simp add: matchesNet_def)
  show ?thesis by (simp add: pushMatching_def correlateSpec_def m Let_def)
qed

lemma correlateSpec_append:
  "correlateSpec cs (ns @ ms) = correlateSpec cs ns @ correlateSpec cs ms"
  by (simp add: correlateSpec_def)

lemma foldl_pushMatching:
  "foldl (pushMatching cs) groups nets = groups @ correlateSpec cs nets"
proof (induction nets arbitrary: groups)
  case Nil
  show ?case by (simp add: correlateSpec_def)
next
  case (Cons n ns)
  have "foldl (pushMatching cs) groups (n # ns) =
      foldl (pushMatching cs) (pushMatching cs groups n) ns" by simp
  also have "\<dots> = pushMatching cs groups n @ correlateSpec cs ns" by (rule Cons.IH)
  also have "\<dots> = groups @ correlateSpec cs [n] @ correlateSpec cs ns"
    by (simp add: pushMatching_spec)
  also have "\<dots> = groups @ correlateSpec cs (n # ns)"
    using correlateSpec_append [of cs "[n]" ns] by simp
  finally show ?case .
qed

lemma fileLoop_char:
  "fileLoop readFile nets files groups = Inr out \<longleftrightarrow>
     (\<exists>contents. map readFile files = map Some contents \<and>
        out = groups @ concat (map (\<lambda>content. correlateSpec (scanFile content) nets) contents))"
proof (induction files arbitrary: groups)
  case Nil
  show ?case by auto
next
  case (Cons f fs)
  show ?case
  proof (cases "readFile f")
    case None
    then show ?thesis by auto
  next
    case (Some content)
    show ?thesis
      apply (simp add: Some Cons.IH foldl_pushMatching)
      apply (rule iffI)
       apply (elim exE conjE)
      subgoal for contents by (rule exI [of _ "content # contents"]) simp
      apply (elim exE conjE)
      subgoal for contents by (cases contents) auto
      done
  qed
qed

lemma fileLoop_error:
  "fileLoop readFile nets files groups = Inl e \<Longrightarrow> e = IoError"
  by (induction files arbitrary: groups) (auto split: option.splits)

lemma correlateSpec_nets:
  "map virtualTestNet (correlateSpec cs nets) = filter (\<lambda>n. filter (matchesNet n) cs \<noteq> []) nets"
  by (induction nets) (simp_all add: correlateSpec_def)

lemma correlateSpec_distinct:
  "distinct nets \<Longrightarrow> distinct (map virtualTestNet (correlateSpec cs nets))"
  by (simp add: correlateSpec_nets)

lemma correlateSpec_groups:
  "g \<in> set (correlateSpec cs nets) \<Longrightarrow>
     contracts g \<noteq> [] \<and> contracts g = filter (matchesNet (virtualTestNet g)) cs \<and> virtualTestNet g \<in> set nets"
  by (auto simp: correlateSpec_def split: if_splits)

section \<open>The scan of one file\<close>

lemma stripPrefix_Some: "stripPrefix p s = Some r \<Longrightarrow> s = p @ r"
  by (induction p s rule: stripPrefix.induct) (auto split: if_splits)

lemma includesStr_set: "includesStr s sub \<Longrightarrow> set sub \<subseteq> set s"
proof (induction s)
  case Nil
  then show ?case by simp
next
  case (Cons c cs)
  show ?case
  proof (cases "stripPrefix sub (c # cs)")
    case None
    with Cons show ?thesis by auto
  next
    case (Some r)
    from stripPrefix_Some [OF this] show ?thesis by auto
  qed
qed

lemma set_dropWhile_cover: "x \<in> set s \<Longrightarrow> P x \<or> x \<in> set (dropWhile P s)"
  by (induction s) (auto split: if_splits)

lemma trim_cover:
  assumes "x \<in> set s"
  shows "isWhiteSpace x \<or> x \<in> set (trim s)"
proof -
  from set_dropWhile_cover [OF assms, of isWhiteSpace]
  have "isWhiteSpace x \<or> x \<in> set (rev (dropWhile isWhiteSpace s))" by simp
  then show ?thesis
    using set_dropWhile_cover [of x "rev (dropWhile isWhiteSpace s)" isWhiteSpace]
    by (auto simp: trim_def)
qed

lemma start_line_not_marker:
  assumes "includesStr l ''Start verifying contract''"
  shows "trim l \<noteq> ''##''"
proof
  assume t: "trim l = ''##''"
  from includesStr_set [OF assms] have "CHR ''S'' \<in> set l" by auto
  from trim_cover [OF this] t have "isWhiteSpace CHR ''S''" by auto
  then show False by (simp add: isWhiteSpace_def)
qed

lemma scanLine_keeps_section:
  "isInDeploymentSection st \<Longrightarrow> isInDeploymentSection (scanLine lines st l)"
  by (simp add: scanLine_def)

lemma scanLines_keep_section:
  "isInDeploymentSection st \<Longrightarrow> isInDeploymentSection (foldl (scanLine lines) st ls)"
  by (induction ls arbitrary: st) (simp_all add: scanLine_keeps_section)

lemma scanLine_marker: "trim m = ''##'' \<Longrightarrow> isInDeploymentSection (scanLine lines st m)"
  by (simp add: scanLine_def)

lemma section_after_marker:
  "trim m = ''##'' \<Longrightarrow> isInDeploymentSection (foldl (scanLine lines) st (pre @ m # rest))"
  by (simp add: scanLines_keep_section scanLine_marker)

lemma section_if_marker_seen:
  assumes "m \<in> set ls" and "trim m = ''##''"
  shows "isInDeploymentSection (foldl (scanLine lines) st ls)"
proof -
  from assms(1) obtain pre rest where "ls = pre @ m # rest" by (auto simp: in_set_conv_decomp)
  then show ?thesis using section_after_marker [OF assms(2)] by simp
qed

lemma submitting_keeps:
  "address (submitting l c) = address c \<and> chain (submitting l c) = chain c"
  by (simp add: submitting_def Let_def split: option.splits)

lemma scanLine_no_start:
  assumes "\<not> includesStr l ''Start verifying contract''"
  shows "fileContracts (scanLine lines st l) = fileContracts st \<and>
         address (currentContract (scanLine lines st l)) = address (currentContract st) \<and>
         chain (currentContract (scanLine lines st l)) = chain (currentContract st)"
  using assms by (simp add: scanLine_def submitting_keeps)

lemma scanLines_no_start:
  assumes "\<forall>l \<in> set ls. \<not> includesStr l ''Start verifying contract''"
  shows "fileContracts (foldl (scanLine lines) st ls) = fileContracts st \<and>
         address (currentContract (foldl (scanLine lines) st ls)) = address (currentContract st) \<and>
         chain (currentContract (foldl (scanLine lines) st ls)) = chain (currentContract st)"
  using assms
proof (induction ls arbitrary: st)
  case Nil
  show ?case by simp
next
  case (Cons l ls)
  then have a: "\<not> includesStr l ''Start verifying contract''"
    and b: "\<forall>l \<in> set ls. \<not> includesStr l ''Start verifying contract''" by simp_all
  show ?case using Cons.IH [OF b, of "scanLine lines st l"] scanLine_no_start [OF a, of lines st]
    by simp
qed

lemma scanLine_start:
  assumes "isInDeploymentSection st" and "includesStr l ''Start verifying contract''"
  shows "address (currentContract (scanLine lines st l)) = Val (orEmpty (firstMatch matchAddressAt l)) \<and>
         chain (currentContract (scanLine lines st l)) = Val (orEmpty (firstMatch matchChainAt l)) \<and>
         fileContracts (scanLine lines st l) = flush st"
  using assms start_line_not_marker [OF assms(2)] by (simp add: scanLine_def)

lemma keyCount_address: "address c \<noteq> NoKey \<Longrightarrow> keyCount c > 0"
  by (simp add: keyCount_def)

lemma keyCount_empty: "keyCount emptyContract = 0"
  by (simp add: keyCount_def emptyContract_def)

text \<open>
  C7. In a file whose lines are \<open>pre\<close>, then a line \<open>l\<close> holding the start marker, then \<open>post\<close>,
  where the section marker stands in \<open>pre\<close> and no line of \<open>post\<close> holds the start marker, the
  record opened at \<open>l\<close> is flushed at the end of the file: the records of the file are not
  empty, and the last of them is the record open at the end, with the address and the chain
  read from \<open>l\<close>.
\<close>

theorem open_record_flushed_at_eof:
  assumes lines: "split CHR 0x0A content = pre @ l # post"
    and marker: "\<exists>m \<in> set pre. trim m = ''##''"
    and start: "includesStr l ''Start verifying contract''"
    and last_start: "\<forall>p \<in> set post. \<not> includesStr p ''Start verifying contract''"
  shows "scanFile content \<noteq> [] \<and>
         last (scanFile content) = currentContract (scanLines (split CHR 0x0A content)) \<and>
         address (last (scanFile content)) = Val (orEmpty (firstMatch matchAddressAt l)) \<and>
         chain (last (scanFile content)) = Val (orEmpty (firstMatch matchChainAt l))"
proof -
  let ?lines = "split CHR 0x0A content"
  let ?s1 = "foldl (scanLine ?lines) initialState pre"
  let ?s2 = "scanLine ?lines ?s1 l"
  let ?s3 = "foldl (scanLine ?lines) ?s2 post"
  have fin: "scanLines ?lines = ?s3" by (simp add: scanLines_def lines)
  from marker have "isInDeploymentSection ?s1" using section_if_marker_seen by blast
  from scanLine_start [OF this start, of ?lines]
  have a2: "address (currentContract ?s2) = Val (orEmpty (firstMatch matchAddressAt l))"
    and c2: "chain (currentContract ?s2) = Val (orEmpty (firstMatch matchChainAt l))" by simp_all
  from scanLines_no_start [OF last_start, of ?lines ?s2] a2 c2
  have a3: "address (currentContract ?s3) = Val (orEmpty (firstMatch matchAddressAt l))"
    and c3: "chain (currentContract ?s3) = Val (orEmpty (firstMatch matchChainAt l))" by simp_all
  from a3 have "keyCount (currentContract ?s3) > 0" by (simp add: keyCount_address)
  then have "scanFile content = fileContracts ?s3 @ [currentContract ?s3]"
    by (simp add: scanFile_def fin flush_def)
  then show ?thesis using a3 c3 fin by simp
qed

theorem open_record_flushed_at_eof_witness:
  "split CHR 0x0A ''##\<newline>Start verifying contract `0xAB` deployed on 1\<newline>Compiler version: 0.8.19'' =
     [''##''] @ ''Start verifying contract `0xAB` deployed on 1'' # [''Compiler version: 0.8.19''] \<and>
   list_ex (\<lambda>m. trim m = ''##'') [''##''] \<and>
   includesStr ''Start verifying contract `0xAB` deployed on 1'' ''Start verifying contract'' \<and>
   list_all (\<lambda>p. \<not> includesStr p ''Start verifying contract'') [''Compiler version: 0.8.19''] \<and>
   scanFile ''##\<newline>Start verifying contract `0xAB` deployed on 1\<newline>Compiler version: 0.8.19'' \<noteq> [] \<and>
   address (last (scanFile ''##\<newline>Start verifying contract `0xAB` deployed on 1\<newline>Compiler version: 0.8.19'')) = Val ''0xAB'' \<and>
   chain (last (scanFile ''##\<newline>Start verifying contract `0xAB` deployed on 1\<newline>Compiler version: 0.8.19'')) = Val ''1''"
proof -
  let ?c = "''##\<newline>Start verifying contract `0xAB` deployed on 1\<newline>Compiler version: 0.8.19''"
  let ?l = "''Start verifying contract `0xAB` deployed on 1''"
  have h1: "split CHR 0x0A ?c = [''##''] @ ?l # [''Compiler version: 0.8.19'']" by code_simp
  have h2: "\<exists>m \<in> set [''##'']. trim m = ''##''" by code_simp
  have h3: "includesStr ?l ''Start verifying contract''" by code_simp
  have h4: "\<forall>p \<in> set [''Compiler version: 0.8.19'']. \<not> includesStr p ''Start verifying contract''"
    by code_simp
  have a: "orEmpty (firstMatch matchAddressAt ?l) = ''0xAB''" by code_simp
  have c: "orEmpty (firstMatch matchChainAt ?l) = ''1''" by code_simp
  have g2: "list_ex (\<lambda>m. trim m = ''##'') [''##'']" by code_simp
  have g4: "list_all (\<lambda>p. \<not> includesStr p ''Start verifying contract'') [''Compiler version: 0.8.19'']"
    by code_simp
  note r = open_record_flushed_at_eof [OF h1 h2 h3 h4, unfolded a c]
  from r have r1: "scanFile ?c \<noteq> []" by (elim conjE)
  from r have r3: "address (last (scanFile ?c)) = Val ''0xAB''" by (elim conjE)
  from r have r4: "chain (last (scanFile ?c)) = Val ''1''" by (elim conjE)
  show ?thesis by (intro conjI h1 g2 h3 g4 r1 r3 r4)
qed

lemma scanLine_outside:
  "\<not> isInDeploymentSection st \<Longrightarrow> trim l \<noteq> ''##'' \<Longrightarrow> scanLine lines st l = st"
  by (simp add: scanLine_def)

lemma scanLines_no_marker:
  assumes "\<forall>l \<in> set ls. trim l \<noteq> ''##''" and "\<not> isInDeploymentSection st"
  shows "foldl (scanLine lines) st ls = st"
  using assms by (induction ls arbitrary: st) (simp_all add: scanLine_outside)

lemma scanLine_plain:
  assumes "\<not> includesStr l ''Start verifying contract''" and "\<not> isFieldLine l"
  shows "currentContract (scanLine lines st l) = currentContract st \<and>
         fileContracts (scanLine lines st l) = fileContracts st"
  using assms by (simp add: scanLine_def isFieldLine_def)

lemma scanLines_plain:
  assumes "\<forall>l \<in> set ls. \<not> includesStr l ''Start verifying contract''"
    and "\<forall>l \<in> set ls. \<not> isFieldLine l"
  shows "currentContract (foldl (scanLine lines) st ls) = currentContract st \<and>
         fileContracts (foldl (scanLine lines) st ls) = fileContracts st"
  using assms
proof (induction ls arbitrary: st)
  case Nil
  show ?case by simp
next
  case (Cons l ls)
  then have a: "\<not> includesStr l ''Start verifying contract''" "\<not> isFieldLine l"
    and b: "\<forall>l \<in> set ls. \<not> includesStr l ''Start verifying contract''"
           "\<forall>l \<in> set ls. \<not> isFieldLine l" by simp_all
  show ?case
    using Cons.IH [OF b, of "scanLine lines st l"] scanLine_plain [OF a, of lines st] by simp
qed

lemma flush_initial: "flush initialState = []"
  by (simp add: flush_def initialState_def keyCount_empty)

lemma no_start_records:
  assumes "\<forall>l \<in> set (split CHR 0x0A content). \<not> includesStr l ''Start verifying contract''"
  shows "scanFile content = [] \<or>
         (\<exists>c. scanFile content = [c] \<and> address c = NoKey \<and> chain c = NoKey)"
proof -
  let ?lines = "split CHR 0x0A content"
  let ?s = "scanLines ?lines"
  from scanLines_no_start [OF assms, of ?lines initialState]
  have "fileContracts ?s = []" and "address (currentContract ?s) = NoKey"
    and "chain (currentContract ?s) = NoKey"
    by (simp_all add: scanLines_def initialState_def emptyContract_def)
  then show ?thesis by (simp add: scanFile_def flush_def)
qed

text \<open>
  C2, as the claim states it, fails: a file with the section marker and a compiler line, and
  no start marker in any line, gives one record, which holds the compiler alone.
\<close>

theorem no_start_marker_counterexample:
  "list_all (\<lambda>l. \<not> includesStr l ''Start verifying contract'')
     (split CHR 0x0A ''##\<newline>Compiler version: 0.8.19'') \<and>
   scanFile ''##\<newline>Compiler version: 0.8.19'' =
     [\<lparr>address = NoKey, chain = NoKey, verificationStatus = NoKey, compiler = Val ''0.8.19'',
       optimizations = NoKey, contractPath = NoKey, contractName = NoKey\<rparr>] \<and>
   scanFile ''##\<newline>Compiler version: 0.8.19'' \<noteq> []"
  by code_simp

text \<open>
  C2, amended. A file with no start marker in any line gives at most one record; such a record
  has neither an address nor a chain, so the loop over the networks adds no group for the
  file. The file gives no record at all when no line is the section marker, and when no line
  is a field line.
\<close>

theorem no_start_marker_scan:
  assumes "\<forall>l \<in> set (split CHR 0x0A content). \<not> includesStr l ''Start verifying contract''"
  shows "length (scanFile content) \<le> 1 \<and>
         (\<forall>c \<in> set (scanFile content). address c = NoKey \<and> chain c = NoKey) \<and>
         foldl (pushMatching (scanFile content)) groups nets = groups \<and>
         ((\<forall>l \<in> set (split CHR 0x0A content). trim l \<noteq> ''##'') \<longrightarrow> scanFile content = []) \<and>
         ((\<forall>l \<in> set (split CHR 0x0A content). \<not> isFieldLine l) \<longrightarrow> scanFile content = [])"
proof (intro conjI impI)
  let ?lines = "split CHR 0x0A content"
  note r = no_start_records [OF assms]
  from r show "length (scanFile content) \<le> 1" by auto
  from r show k: "\<forall>c \<in> set (scanFile content). address c = NoKey \<and> chain c = NoKey" by auto
  have "\<And>n. filter (matchesNet n) (scanFile content) = []"
    using k by (auto simp: filter_empty_conv matchesNet_def)
  then have "correlateSpec (scanFile content) nets = []"
    by (simp add: correlateSpec_def)
  then show "foldl (pushMatching (scanFile content)) groups nets = groups"
    by (simp add: foldl_pushMatching)
next
  assume "\<forall>l \<in> set (split CHR 0x0A content). trim l \<noteq> ''##''"
  then have "scanLines (split CHR 0x0A content) = initialState"
    unfolding scanLines_def by (rule scanLines_no_marker) (simp add: initialState_def)
  then show "scanFile content = []" by (simp add: scanFile_def flush_initial)
next
  assume "\<forall>l \<in> set (split CHR 0x0A content). \<not> isFieldLine l"
  from scanLines_plain [OF assms this, of "split CHR 0x0A content" initialState]
  have "currentContract (scanLines (split CHR 0x0A content)) = emptyContract"
    and "fileContracts (scanLines (split CHR 0x0A content)) = []"
    by (simp_all add: scanLines_def initialState_def)
  then show "scanFile content = []" by (simp add: scanFile_def flush_def keyCount_empty)
qed

theorem no_start_marker_scan_witness:
  "list_all (\<lambda>l. \<not> includesStr l ''Start verifying contract'')
     (split CHR 0x0A ''##\<newline>Compiler version: 0.8.19'') \<and>
   length (scanFile ''##\<newline>Compiler version: 0.8.19'') \<le> 1 \<and>
   list_all (\<lambda>c. address c = NoKey \<and> chain c = NoKey) (scanFile ''##\<newline>Compiler version: 0.8.19'') \<and>
   foldl (pushMatching (scanFile ''##\<newline>Compiler version: 0.8.19'')) [] [exampleNet] = [] \<and>
   list_all (\<lambda>l. \<not> includesStr l ''Start verifying contract'')
     (split CHR 0x0A ''Compiler version: 0.8.19'') \<and>
   list_all (\<lambda>l. trim l \<noteq> ''##'') (split CHR 0x0A ''Compiler version: 0.8.19'') \<and>
   scanFile ''Compiler version: 0.8.19'' = [] \<and>
   list_all (\<lambda>l. \<not> includesStr l ''Start verifying contract'') (split CHR 0x0A ''##\<newline>hello'') \<and>
   list_all (\<lambda>l. \<not> isFieldLine l) (split CHR 0x0A ''##\<newline>hello'') \<and>
   scanFile ''##\<newline>hello'' = []"
proof -
  let ?a = "''##\<newline>Compiler version: 0.8.19''"
  let ?b = "''Compiler version: 0.8.19''"
  let ?c = "''##\<newline>hello''"
  have ga: "list_all (\<lambda>l. \<not> includesStr l ''Start verifying contract'') (split CHR 0x0A ?a)"
    by code_simp
  have gb: "list_all (\<lambda>l. \<not> includesStr l ''Start verifying contract'') (split CHR 0x0A ?b)"
    by code_simp
  have gb2: "list_all (\<lambda>l. trim l \<noteq> ''##'') (split CHR 0x0A ?b)" by code_simp
  have gc: "list_all (\<lambda>l. \<not> includesStr l ''Start verifying contract'') (split CHR 0x0A ?c)"
    by code_simp
  have gc2: "list_all (\<lambda>l. \<not> isFieldLine l) (split CHR 0x0A ?c)" by code_simp
  note ra = no_start_marker_scan [OF ga [unfolded list_all_iff], of "[]" "[exampleNet]"]
  note rb = no_start_marker_scan [OF gb [unfolded list_all_iff], of "[]" "[]"]
  note rc = no_start_marker_scan [OF gc [unfolded list_all_iff], of "[]" "[]"]
  from ra have a1: "length (scanFile ?a) \<le> 1" by (elim conjE)
  from ra have a2: "list_all (\<lambda>c. address c = NoKey \<and> chain c = NoKey) (scanFile ?a)"
    unfolding list_all_iff by (elim conjE)
  from ra have a3: "foldl (pushMatching (scanFile ?a)) [] [exampleNet] = []" by (elim conjE)
  from rb gb2 have b1: "scanFile ?b = []" unfolding list_all_iff by (elim conjE) blast
  from rc gc2 have c1: "scanFile ?c = []" unfolding list_all_iff by (elim conjE) blast
  show ?thesis by (intro conjI ga a1 a2 a3 gb gb2 b1 gc gc2 c1)
qed

section \<open>The field lines\<close>

lemma indexOf_first: "x \<notin> set pre \<Longrightarrow> indexOf (pre @ x # rest) x = int (length pre)"
  by (induction pre) (auto simp: Let_def)

text \<open>
  At the first line of the file with its text, the status is read from the next line, and is
  \<open>null\<close> when there is no next line.
\<close>

lemma statusAfter_first:
  assumes "line \<notin> set pre"
  shows "statusAfter (pre @ line # rest) line =
           (case rest of [] \<Rightarrow> Null | following # others \<Rightarrow> orNull (firstMatch matchResponseAt following))"
proof -
  have "at (pre @ line # rest) (int (length pre) + 1) =
          (case rest of [] \<Rightarrow> None | following # others \<Rightarrow> Some following)"
    by (cases rest) (simp_all add: at_def nth_append nat_add_distrib)
  then show ?thesis
    by (simp add: statusAfter_def indexOf_first [OF assms] split: list.splits)
qed

text \<open>
  C3. The status is read from the line after the first line of the file that equals the
  status line, not from the line after the status line itself: where the status line stands
  twice, the second one reads \<open>NOTOK\<close> again, although \<open>OK\<close> follows it.
\<close>

theorem status_read_after_first_occurrence:
  "map verificationStatus
     (scanFile ''##\<newline>Start verifying contract `0xAB` deployed on 1\<newline>Contract verification status:\<newline>Response: `NOTOK`\<newline>Contract verification status:\<newline>Response: `OK`'') =
   [Val ''NOTOK'']"
  by code_simp

lemma digitChar_isDigit: "k < 10 \<Longrightarrow> isDigit (digitChar k)"
proof -
  assume "k < 10"
  then have "k \<in> {0,1,2,3,4,5,6,7,8,9}" by auto
  then show ?thesis by (elim insertE emptyE; hypsubst; code_simp)
qed

lemma hexValue_digitChar: "k < 10 \<Longrightarrow> hexValue (digitChar k) = k"
proof -
  assume "k < 10"
  then have "k \<in> {0,1,2,3,4,5,6,7,8,9}" by auto
  then show ?thesis by (elim insertE emptyE; hypsubst; code_simp)
qed

lemma natToString_digits: "\<forall>c \<in> set (natToString n). isDigit c"
proof (induction n rule: natToString.induct)
  case (1 n)
  show ?case
  proof (cases "n < 10")
    case True
    then show ?thesis by (subst natToString.simps) (simp add: digitChar_isDigit)
  next
    case False
    with 1 show ?thesis by (subst natToString.simps) (simp add: digitChar_isDigit)
  qed
qed

lemma natToString_nonempty: "natToString n \<noteq> []"
  by (subst natToString.simps) simp

lemma digitsValue_snoc: "digitsValue r (ds @ [d]) = digitsValue r ds * r + hexValue d"
  by (simp add: digitsValue_def)

lemma digitsValue_natToString: "digitsValue 10 (natToString n) = n"
proof (induction n rule: natToString.induct)
  case (1 n)
  show ?case
  proof (cases "n < 10")
    case True
    then show ?thesis
      by (subst natToString.simps) (simp add: digitsValue_def hexValue_digitChar)
  next
    case False
    with 1 have "digitsValue 10 (natToString (n div 10)) = n div 10" by simp
    with False show ?thesis
      by (subst natToString.simps) (simp add: digitsValue_snoc hexValue_digitChar)
  qed
qed

lemma digit_facts:
  "isDigit c \<Longrightarrow> \<not> isWhiteSpace c \<and> c \<noteq> CHR ''-'' \<and> c \<noteq> CHR ''+'' \<and> c \<noteq> CHR ''x'' \<and>
      c \<noteq> CHR ''X'' \<and> c \<noteq> CHR '':''"
  unfolding isDigit_def isWhiteSpace_def by auto

lemma parseInt_digits:
  assumes "ds \<noteq> []" and "\<forall>c \<in> set ds. isDigit c"
  shows "parseInt ds = Some (int (digitsValue 10 ds))"
proof -
  from assms obtain d rest where ds: "ds = d # rest" by (cases ds) auto
  with assms have d: "isDigit d" by simp
  have hm: "(hd ds = CHR ''-'') = False" and hp: "(hd ds = CHR ''+'') = False"
    using ds d digit_facts by auto
  have nohex: "(take 2 ds = ''0x'') = False" "(take 2 ds = ''0X'') = False"
  proof -
    show "(take 2 ds = ''0x'') = False"
    proof (cases rest)
      case Nil
      with ds show ?thesis by simp
    next
      case (Cons e rest')
      with ds assms have "isDigit e" by simp
      then have "e \<noteq> CHR ''x''" using digit_facts by blast
      with ds Cons show ?thesis by simp
    qed
    show "(take 2 ds = ''0X'') = False"
    proof (cases rest)
      case Nil
      with ds show ?thesis by simp
    next
      case (Cons e rest')
      with ds assms have "isDigit e" by simp
      then have "e \<noteq> CHR ''X''" using digit_facts by blast
      with ds Cons show ?thesis by simp
    qed
  qed
  have tw: "takeWhile isDigit ds = ds" using assms by simp
  have dw: "dropWhile isWhiteSpace ds = ds" using ds d digit_facts by simp
  have ne: "(ds = []) = False" using assms(1) by simp
  show ?thesis
    by (simp only: parseInt_def Let_def dw hm hp nohex tw ne simp_thms if_False if_True
          mult_1 of_nat_mult)
qed

lemma parseInt_natToString: "parseInt (natToString n) = Some (int n)"
  using parseInt_digits [OF natToString_nonempty natToString_digits]
  by (simp add: digitsValue_natToString)

lemma trim_digits:
  assumes "ds \<noteq> []" and "\<forall>c \<in> set ds. isDigit c"
  shows "trim (CHR '' '' # ds) = ds"
proof -
  have sp: "isWhiteSpace CHR '' ''" by (simp add: isWhiteSpace_def)
  from assms obtain d rest where ds: "ds = d # rest" by (cases ds) auto
  with assms have "\<not> isWhiteSpace d" using digit_facts by simp
  with ds have a: "dropWhile isWhiteSpace ds = ds" by simp
  from assms have "rev ds \<noteq> []" and "\<not> isWhiteSpace (hd (rev ds))"
    using digit_facts by (simp_all add: hd_rev)
  then have b: "dropWhile isWhiteSpace (rev ds) = rev ds" by (cases "rev ds") auto
  show ?thesis by (simp add: trim_def sp a b)
qed

lemma split_no_sep: "sep \<notin> set s \<Longrightarrow> split sep s = [s]"
  by (induction s) auto

lemma not_digit_absent: "\<forall>c \<in> set ds. isDigit c \<Longrightarrow> \<not> isDigit x \<Longrightarrow> x \<notin> set ds"
  by blast

lemma optimizations_line_facts:
  assumes "\<forall>c \<in> set ds. isDigit c"
  shows "trim (''Optimizations: '' @ ds) \<noteq> ''##''"
    and "\<not> includesStr (''Optimizations: '' @ ds) ''Start verifying contract''"
    and "\<not> includesStr (''Optimizations: '' @ ds) ''Compiler version:''"
    and "includesStr (''Optimizations: '' @ ds) ''Optimizations:''"
    and "at (split CHR '':'' (''Optimizations: '' @ ds)) 1 = Some (CHR '' '' # ds)"
proof -
  let ?line = "''Optimizations: '' @ ds"
  have dS: "\<not> isDigit CHR ''S''" and dC: "\<not> isDigit CHR ''C''" and dc: "\<not> isDigit CHR '':''"
    by (simp_all add: isDigit_def)
  have noS: "CHR ''S'' \<notin> set ?line" using not_digit_absent [OF assms dS] by simp
  have noC: "CHR ''C'' \<notin> set ?line" using not_digit_absent [OF assms dC] by simp
  have nocolon: "CHR '':'' \<notin> set ds" using not_digit_absent [OF assms dc] .
  have "CHR ''S'' \<in> set ''Start verifying contract''" by simp
  then show "\<not> includesStr ?line ''Start verifying contract''"
    using includesStr_set [of ?line "''Start verifying contract''"] noS by blast
  have "CHR ''C'' \<in> set ''Compiler version:''" by simp
  then show "\<not> includesStr ?line ''Compiler version:''"
    using includesStr_set [of ?line "''Compiler version:''"] noC by blast
  show "includesStr ?line ''Optimizations:''" by simp
  have "CHR ''O'' \<in> set ?line" by simp
  then have "isWhiteSpace CHR ''O'' \<or> CHR ''O'' \<in> set (trim ?line)" by (rule trim_cover)
  moreover have "\<not> isWhiteSpace CHR ''O''" by (simp add: isWhiteSpace_def)
  ultimately have "CHR ''O'' \<in> set (trim ?line)" by blast
  then show "trim ?line \<noteq> ''##''" by auto
  have "split CHR '':'' ?line = [''Optimizations'', CHR '' '' # ds]"
    using split_no_sep [OF nocolon] by simp
  then show "at (split CHR '':'' ?line) 1 = Some (CHR '' '' # ds)"
    by (simp add: at_def)
qed

text \<open>
  Inside the section, the line \<open>Optimizations: n\<close> with a decimal \<open>n\<close> sets the field to
  \<open>n\<close> when \<open>n\<close> is not zero, and to \<open>null\<close> when it is.
\<close>

lemma optimizations_line:
  assumes sec: "isInDeploymentSection st"
  shows "optimizations (currentContract (scanLine lines st (''Optimizations: '' @ natToString n))) =
           (if n = 0 then Null else Val (int n))"
proof -
  define line where "line = ''Optimizations: '' @ natToString n"
  note f = optimizations_line_facts [OF natToString_digits [of n], folded line_def]
  have "optimizations (currentContract (scanLine lines st line)) =
          numberOrNull (parseInt (trim (CHR '' '' # natToString n)))"
    unfolding scanLine_def by (simp add: f sec)
  also have "\<dots> = numberOrNull (Some (int n))"
    by (simp add: trim_digits [OF natToString_nonempty natToString_digits] parseInt_natToString)
  also have "\<dots> = (if n = 0 then Null else Val (int n))" by (simp add: numberOrNull_def)
  finally show ?thesis unfolding line_def .
qed

text \<open>
  C4. The optimizations line with the integer zero leaves \<open>null\<close> in the record, not zero.
\<close>

theorem optimizations_zero_is_null:
  "map optimizations
     (scanFile ''##\<newline>Start verifying contract `0xAB` deployed on 1\<newline>Optimizations: 0'') = [Null]"
  by code_simp

section \<open>One state machine for each file\<close>

lemma fileLoop_append:
  "fileLoop readFile nets (fs1 @ fs2) groups =
     (case fileLoop readFile nets fs1 groups of
        Inl e \<Rightarrow> Inl e
      | Inr g1 \<Rightarrow> fileLoop readFile nets fs2 g1)"
  by (induction fs1 arbitrary: groups) (auto split: option.splits)

lemma fileLoop_groups:
  "fileLoop readFile nets files groups =
     (case fileLoop readFile nets files [] of Inl e \<Rightarrow> Inl e | Inr g \<Rightarrow> Inr (groups @ g))"
proof (induction files arbitrary: groups)
  case Nil
  show ?case by simp
next
  case (Cons f fs)
  show ?case
  proof (cases "readFile f")
    case None
    then show ?thesis by simp
  next
    case (Some content)
    show ?thesis
      using Cons.IH [of "groups @ correlateSpec (scanFile content) nets"]
            Cons.IH [of "correlateSpec (scanFile content) nets"]
      by (simp add: Some foldl_pushMatching split: sum.splits)
  qed
qed

text \<open>
  C10. The scan of a file starts outside the section, with no key in the open record and no
  record collected, and is a function of the text of that file alone. The groups of a file
  are those the loop over the networks gives from the empty array for that text, put between
  the groups of the files before it and those of the files after it. One turn of the loop
  over the lines never leaves the section, and from a section marker on every later state of
  the file is inside the section.
\<close>

theorem scanner_isolated_per_file:
  "isInDeploymentSection initialState = False \<and>
   keyCount (currentContract initialState) = 0 \<and>
   fileContracts initialState = [] \<and>
   scanFile content =
     flush (foldl (scanLine (split CHR 0x0A content)) initialState (split CHR 0x0A content)) \<and>
   fileLoop readFile nets (earlier @ entry # later) [] =
     (case fileLoop readFile nets earlier [] of
        Inl e \<Rightarrow> Inl e
      | Inr g1 \<Rightarrow>
          (case readFile entry of
             None \<Rightarrow> Inl IoError
           | Some body \<Rightarrow>
               (case fileLoop readFile nets later [] of
                  Inl e \<Rightarrow> Inl e
                | Inr g2 \<Rightarrow> Inr (g1 @ foldl (pushMatching (scanFile body)) [] nets @ g2)))) \<and>
   (isInDeploymentSection st \<longrightarrow> isInDeploymentSection (scanLine lines st l)) \<and>
   (trim m = ''##'' \<longrightarrow> isInDeploymentSection (foldl (scanLine lines) st (pre @ m # rest)))"
proof (intro conjI impI)
  show "isInDeploymentSection initialState = False" by (simp add: initialState_def)
  show "keyCount (currentContract initialState) = 0" by (simp add: initialState_def keyCount_empty)
  show "fileContracts initialState = []" by (simp add: initialState_def)
  show "scanFile content =
     flush (foldl (scanLine (split CHR 0x0A content)) initialState (split CHR 0x0A content))"
    by (simp add: scanFile_def scanLines_def)
  show "fileLoop readFile nets (earlier @ entry # later) [] =
     (case fileLoop readFile nets earlier [] of
        Inl e \<Rightarrow> Inl e
      | Inr g1 \<Rightarrow>
          (case readFile entry of
             None \<Rightarrow> Inl IoError
           | Some body \<Rightarrow>
               (case fileLoop readFile nets later [] of
                  Inl e \<Rightarrow> Inl e
                | Inr g2 \<Rightarrow> Inr (g1 @ foldl (pushMatching (scanFile body)) [] nets @ g2))))"
  proof (cases "fileLoop readFile nets earlier []")
    case (Inl e)
    then show ?thesis by (simp add: fileLoop_append)
  next
    case (Inr g1)
    show ?thesis
    proof (cases "readFile entry")
      case None
      then show ?thesis by (simp add: fileLoop_append Inr)
    next
      case (Some body)
      have "fileLoop readFile nets (entry # later) g1 =
              fileLoop readFile nets later (g1 @ foldl (pushMatching (scanFile body)) [] nets)"
        by (simp add: Some foldl_pushMatching)
      also have "\<dots> = (case fileLoop readFile nets later [] of
                  Inl e \<Rightarrow> Inl e
                | Inr g2 \<Rightarrow> Inr ((g1 @ foldl (pushMatching (scanFile body)) [] nets) @ g2))"
        by (rule fileLoop_groups)
      finally show ?thesis by (simp add: fileLoop_append Inr Some split: sum.splits)
    qed
  qed
next
  assume "isInDeploymentSection st"
  then show "isInDeploymentSection (scanLine lines st l)" by (rule scanLine_keeps_section)
next
  assume "trim m = ''##''"
  then show "isInDeploymentSection (foldl (scanLine lines) st (pre @ m # rest))"
    by (rule section_after_marker)
qed


theorem scanner_isolated_per_file_witness:
  "fileLoop exampleReadFile [exampleNet] ([''a.json''] @ ''b.json'' # []) [] =
     Inr ([\<lparr>virtualTestNet = exampleNet, contracts = [exampleContract]\<rparr>] @
          foldl (pushMatching (scanFile exampleLog)) [] [exampleNet] @ []) \<and>
   isInDeploymentSection (scanLine [] initialState ''##'') \<and>
   isInDeploymentSection (scanLine [] (scanLine [] initialState ''##'') ''plain'') \<and>
   trim '' ## '' = ''##'' \<and>
   isInDeploymentSection (foldl (scanLine []) initialState ([''x''] @ '' ## '' # [''y'']))"
proof -
  have h1: "isInDeploymentSection (scanLine [] initialState ''##'')" by code_simp
  have h2: "trim '' ## '' = ''##''" by code_simp
  have e1: "fileLoop exampleReadFile [exampleNet] [''a.json''] [] =
              Inr [\<lparr>virtualTestNet = exampleNet, contracts = [exampleContract]\<rparr>]" by code_simp
  have e2: "fileLoop exampleReadFile [exampleNet] [] [] = Inr []" by simp
  have e3: "exampleReadFile ''b.json'' = Some exampleLog" by (simp add: exampleReadFile_def)
  note r = scanner_isolated_per_file [where content = "[]" and readFile = exampleReadFile
      and nets = "[exampleNet]" and earlier = "[''a.json'']" and entry = "''b.json''"
      and later = "[]" and st = "scanLine [] initialState ''##''" and lines = "[]"
      and l = "''plain''" and m = "'' ## ''" and pre = "[''x'']" and rest = "[''y'']"]
  note r' = scanner_isolated_per_file [where content = "[]" and readFile = exampleReadFile
      and nets = "[exampleNet]" and earlier = "[''a.json'']" and entry = "''b.json''"
      and later = "[]" and st = initialState and lines = "[]"
      and l = "''plain''" and m = "'' ## ''" and pre = "[''x'']" and rest = "[''y'']"]
  have r1: "fileLoop exampleReadFile [exampleNet] ([''a.json''] @ ''b.json'' # []) [] =
     Inr ([\<lparr>virtualTestNet = exampleNet, contracts = [exampleContract]\<rparr>] @
          foldl (pushMatching (scanFile exampleLog)) [] [exampleNet] @ [])"
    using r [THEN conjunct2, THEN conjunct2, THEN conjunct2, THEN conjunct2, THEN conjunct1]
    unfolding e1 e2 e3 by simp
  have r2: "isInDeploymentSection (scanLine [] (scanLine [] initialState ''##'') ''plain'')"
    using r [THEN conjunct2, THEN conjunct2, THEN conjunct2, THEN conjunct2, THEN conjunct2,
             THEN conjunct1] h1 by (rule mp)
  have r3: "isInDeploymentSection (foldl (scanLine []) initialState ([''x''] @ '' ## '' # [''y'']))"
    using r' [THEN conjunct2, THEN conjunct2, THEN conjunct2, THEN conjunct2, THEN conjunct2,
              THEN conjunct2] h2 by (rule mp)
  show ?thesis by (intro conjI r1 h1 r2 h2 r3)
qed

section \<open>The persister\<close>

text \<open>
  C9. The persister issues a write exactly when the parse returns a report with at least one
  group. With a report of no groups it issues the removal of the scratch directory and
  nothing else; with a report of some groups, the removal and the one write of the report.
\<close>

theorem persister_writes_iff_deployments:
  "((\<exists>path body. WriteFile path body \<in>
        set (fst (persistDeploymentInfo tmp out stringify writeOk readdir readFile infraInfo ctx)))
      \<longleftrightarrow> (\<exists>report. parseDeploymentLogs readdir readFile infraInfo ctx = Inr report \<and>
                     deployments report \<noteq> [])) \<and>
   (parseDeploymentLogs readdir readFile infraInfo ctx = Inr report \<and> deployments report = [] \<longrightarrow>
      fst (persistDeploymentInfo tmp out stringify writeOk readdir readFile infraInfo ctx) = [Rm tmp]) \<and>
   (parseDeploymentLogs readdir readFile infraInfo ctx = Inr report \<and> deployments report \<noteq> [] \<longrightarrow>
      fst (persistDeploymentInfo tmp out stringify writeOk readdir readFile infraInfo ctx) =
        [Rm tmp, persistDeployment out stringify ctx report])"
  by (cases "parseDeploymentLogs readdir readFile infraInfo ctx")
     (auto simp: persistDeploymentInfo_def persistDeployment_def)

theorem persister_writes_iff_deployments_witness:
  "(\<exists>path body. WriteFile path body \<in>
        set (fst (persistDeploymentInfo ''tmp'' ''out'' (\<lambda>r. ''{}'') (\<lambda>w. True) (Some [''a.json''])
                    exampleReadFile (Some exampleInfra) exampleCtx))) \<and>
   fst (persistDeploymentInfo ''tmp'' ''out'' (\<lambda>r. ''{}'') (\<lambda>w. True) (Some [''a.json''])
          exampleReadFile (Some exampleInfra) exampleCtx) =
     [Rm ''tmp'', WriteFile ''out/42-ci-build-deployments.json'' ''{}''] \<and>
   fst (persistDeploymentInfo ''tmp'' ''out'' (\<lambda>r. ''{}'') (\<lambda>w. True) (Some [''notes.txt''])
          exampleReadFile (Some exampleInfra) exampleCtx) = [Rm ''tmp'']"
proof -
  have e1: "parseDeploymentLogs (Some [''a.json'']) exampleReadFile (Some exampleInfra) exampleCtx =
     Inr \<lparr>workflow = exampleCtx,
          deployments = [\<lparr>virtualTestNet = exampleNet, contracts = [exampleContract]\<rparr>]\<rparr>"
    by code_simp
  have e0: "parseDeploymentLogs (Some [''notes.txt'']) exampleReadFile (Some exampleInfra) exampleCtx =
     Inr \<lparr>workflow = exampleCtx, deployments = []\<rparr>"
    by code_simp
  have w: "persistDeployment ''out'' (\<lambda>r. ''{}'') exampleCtx
             \<lparr>workflow = exampleCtx,
              deployments = [\<lparr>virtualTestNet = exampleNet, contracts = [exampleContract]\<rparr>]\<rparr> =
           WriteFile ''out/42-ci-build-deployments.json'' ''{}''"
    by code_simp
  note r1 = persister_writes_iff_deployments [of "''tmp''" "''out''" "\<lambda>r. ''{}''" "\<lambda>w. True"
      "Some [''a.json'']" exampleReadFile "Some exampleInfra" exampleCtx
      "\<lparr>workflow = exampleCtx,
        deployments = [\<lparr>virtualTestNet = exampleNet, contracts = [exampleContract]\<rparr>]\<rparr>"]
  note r0 = persister_writes_iff_deployments [of "''tmp''" "''out''" "\<lambda>r. ''{}''" "\<lambda>w. True"
      "Some [''notes.txt'']" exampleReadFile "Some exampleInfra" exampleCtx
      "\<lparr>workflow = exampleCtx, deployments = []\<rparr>"]
  from r1 e1 have a: "\<exists>path body. WriteFile path body \<in>
        set (fst (persistDeploymentInfo ''tmp'' ''out'' (\<lambda>r. ''{}'') (\<lambda>w. True) (Some [''a.json''])
                    exampleReadFile (Some exampleInfra) exampleCtx))"
    by (elim conjE) simp
  from r1 e1 have b: "fst (persistDeploymentInfo ''tmp'' ''out'' (\<lambda>r. ''{}'') (\<lambda>w. True) (Some [''a.json''])
          exampleReadFile (Some exampleInfra) exampleCtx) =
     [Rm ''tmp'', WriteFile ''out/42-ci-build-deployments.json'' ''{}'']"
    unfolding w [symmetric] by (elim conjE) simp
  from r0 e0 have c: "fst (persistDeploymentInfo ''tmp'' ''out'' (\<lambda>r. ''{}'') (\<lambda>w. True) (Some [''notes.txt''])
          exampleReadFile (Some exampleInfra) exampleCtx) = [Rm ''tmp'']"
    by (elim conjE) simp
  show ?thesis by (intro conjI a b c)
qed

section \<open>The correlator\<close>

lemma parse_Inr:
  assumes "parseDeploymentLogs readdir readFile infraInfo ctx = Inr report"
  obtains files infra where "readdir = Some files" and "infraInfo = Some infra"
    and "fileLoop readFile (objectValues (networks infra))
           (filter (\<lambda>file. extname file = ''.json'') files) [] = Inr (deployments report)"
    and "workflow report = ctx"
  using assms
  by (auto simp: parseDeploymentLogs_def Let_def split: option.splits sum.splits)

text \<open>
  C1, as the claim states it, fails: with two log files that each hold one contract of
  chain 1 and one environment of chain 1, the output holds two groups of that environment
  with one contract each, where all records across the files, correlated once, give one
  group with both.
\<close>

theorem correlator_one_group_counterexample:
  "parseDeploymentLogs (Some [''a.json'', ''b.json'']) exampleReadFile (Some exampleInfra) exampleCtx =
     Inr \<lparr>workflow = exampleCtx,
          deployments = [\<lparr>virtualTestNet = exampleNet, contracts = [exampleContract]\<rparr>,
                         \<lparr>virtualTestNet = exampleNet, contracts = [exampleContract]\<rparr>]\<rparr> \<and>
   correlateSpec (scanFile exampleLog @ scanFile exampleLog) (objectValues (networks exampleInfra)) =
     [\<lparr>virtualTestNet = exampleNet, contracts = [exampleContract, exampleContract]\<rparr>] \<and>
   length [\<lparr>virtualTestNet = exampleNet, contracts = [exampleContract]\<rparr>,
           \<lparr>virtualTestNet = exampleNet, contracts = [exampleContract]\<rparr>] \<noteq>
   length [\<lparr>virtualTestNet = exampleNet, contracts = [exampleContract, exampleContract]\<rparr>]"
proof -
  have "parseDeploymentLogs (Some [''a.json'', ''b.json'']) exampleReadFile (Some exampleInfra) exampleCtx =
     Inr \<lparr>workflow = exampleCtx,
          deployments = [\<lparr>virtualTestNet = exampleNet, contracts = [exampleContract]\<rparr>,
                         \<lparr>virtualTestNet = exampleNet, contracts = [exampleContract]\<rparr>]\<rparr>"
    by code_simp
  moreover have "correlateSpec (scanFile exampleLog @ scanFile exampleLog)
       (objectValues (networks exampleInfra)) =
     [\<lparr>virtualTestNet = exampleNet, contracts = [exampleContract, exampleContract]\<rparr>]"
    by code_simp
  ultimately show ?thesis by simp
qed

text \<open>
  C1, amended. When the directory is listed and a snapshot is there, and the parse returns a
  report, every log file was read, and the groups of the report are, file after file in the
  order of the listing, the correlation of the records of that one file: for each
  environment, in the order in which the snapshot enumerates them, one group with all records
  of the file on its chain, when there are any. So an environment stands at most once among
  the groups of one file, when the snapshot lists it once.
\<close>

theorem correlator_groups_per_file:
  assumes "parseDeploymentLogs (Some files) readFile (Some infra) ctx = Inr report"
  shows "\<exists>contents.
           map readFile (filter (\<lambda>file. extname file = ''.json'') files) = map Some contents \<and>
           deployments report =
             concat (map (\<lambda>content. correlateSpec (scanFile content) (objectValues (networks infra)))
                         contents) \<and>
           (distinct (objectValues (networks infra)) \<longrightarrow>
              (\<forall>content \<in> set contents.
                 distinct (map virtualTestNet
                   (correlateSpec (scanFile content) (objectValues (networks infra))))))"
proof -
  from assms have "fileLoop readFile (objectValues (networks infra))
           (filter (\<lambda>file. extname file = ''.json'') files) [] = Inr (deployments report)"
    by (elim parse_Inr) simp
  then obtain contents where
    "map readFile (filter (\<lambda>file. extname file = ''.json'') files) = map Some contents"
    "deployments report =
       concat (map (\<lambda>content. correlateSpec (scanFile content) (objectValues (networks infra)))
                   contents)"
    unfolding fileLoop_char by auto
  then show ?thesis using correlateSpec_distinct by blast
qed

theorem correlator_groups_per_file_witness:
  "\<exists>contents.
     map exampleReadFile (filter (\<lambda>file. extname file = ''.json'') [''a.json'', ''b.json'']) =
       map Some contents \<and>
     [\<lparr>virtualTestNet = exampleNet, contracts = [exampleContract]\<rparr>,
      \<lparr>virtualTestNet = exampleNet, contracts = [exampleContract]\<rparr>] =
       concat (map (\<lambda>content. correlateSpec (scanFile content) (objectValues (networks exampleInfra)))
                   contents) \<and>
     distinct (objectValues (networks exampleInfra)) \<and>
     list_all (\<lambda>content. distinct (map virtualTestNet
                 (correlateSpec (scanFile content) (objectValues (networks exampleInfra)))))
       contents"
proof -
  have e: "parseDeploymentLogs (Some [''a.json'', ''b.json'']) exampleReadFile (Some exampleInfra) exampleCtx =
     Inr \<lparr>workflow = exampleCtx,
          deployments = [\<lparr>virtualTestNet = exampleNet, contracts = [exampleContract]\<rparr>,
                         \<lparr>virtualTestNet = exampleNet, contracts = [exampleContract]\<rparr>]\<rparr>"
    by code_simp
  have d: "distinct (objectValues (networks exampleInfra))"
    by (simp add: objectValues_def exampleInfra_def)
  from correlator_groups_per_file [OF e] d show ?thesis
    unfolding list_all_iff by auto
qed

text \<open>
  C8. Every group of a report that the parse returns holds at least one contract, and every
  contract of the group has the chain of the group's environment, as the decimal string of
  its chain identifier.
\<close>

theorem groups_never_empty:
  assumes "parseDeploymentLogs readdir readFile infraInfo ctx = Inr report"
  shows "\<forall>g \<in> set (deployments report).
           contracts g \<noteq> [] \<and>
           (\<forall>c \<in> set (contracts g). chain c = Val (numberToString (chainId (virtualTestNet g))))"
proof
  fix g assume g: "g \<in> set (deployments report)"
  from assms obtain files and infra :: InfrastructureInfo where
    "fileLoop readFile (objectValues (networks infra))
           (filter (\<lambda>file. extname file = ''.json'') files) [] = Inr (deployments report)"
    by (rule parse_Inr)
  then obtain contents where
    "deployments report =
       concat (map (\<lambda>content. correlateSpec (scanFile content) (objectValues (networks infra)))
                   contents)"
    unfolding fileLoop_char by auto
  with g obtain content where
    "g \<in> set (correlateSpec (scanFile content) (objectValues (networks infra)))"
    by auto
  from correlateSpec_groups [OF this]
  have "contracts g \<noteq> []"
    and "contracts g = filter (matchesNet (virtualTestNet g)) (scanFile content)"
    by blast+
  then show "contracts g \<noteq> [] \<and>
           (\<forall>c \<in> set (contracts g). chain c = Val (numberToString (chainId (virtualTestNet g))))"
    by (auto simp: matchesNet_def)
qed

theorem groups_never_empty_witness:
  "parseDeploymentLogs (Some [''a.json'']) exampleReadFile (Some exampleInfra) exampleCtx =
     Inr \<lparr>workflow = exampleCtx,
          deployments = [\<lparr>virtualTestNet = exampleNet, contracts = [exampleContract]\<rparr>]\<rparr> \<and>
   list_all (\<lambda>g. contracts g \<noteq> [] \<and>
                 list_all (\<lambda>c. chain c = Val (numberToString (chainId (virtualTestNet g))))
                   (contracts g))
     [\<lparr>virtualTestNet = exampleNet, contracts = [exampleContract]\<rparr>]"
proof -
  have e: "parseDeploymentLogs (Some [''a.json'']) exampleReadFile (Some exampleInfra) exampleCtx =
     Inr \<lparr>workflow = exampleCtx,
          deployments = [\<lparr>virtualTestNet = exampleNet, contracts = [exampleContract]\<rparr>]\<rparr>"
    by code_simp
  from groups_never_empty [OF e] e show ?thesis
    unfolding list_all_iff by simp
qed

section \<open>The missing snapshot\<close>

text \<open>
  C5, as the claim states it, fails: when the directory cannot be listed and there is no
  snapshot, the step fails with the error of the listing, not with the error of the missing
  snapshot.
\<close>

theorem missing_snapshot_counterexample:
  "parseDeploymentLogs None exampleReadFile None exampleCtx = Inl IoError \<and>
   parseDeploymentLogs None exampleReadFile None exampleCtx \<noteq> Inl MissingSnapshotError"
  by (simp add: parseDeploymentLogs_def)

text \<open>
  C5, amended. When the directory is listed, the step fails with the error of the missing
  snapshot exactly when there is no snapshot; and with a snapshot the step never fails with
  that error, whatever the listing and the reads give. When the directory cannot be listed,
  the step fails with the error of the listing, with a snapshot or without one. There is no
  snapshot exactly when the infrastructure file of the job cannot be read or its text does
  not parse to one.
\<close>

theorem missing_snapshot_iff:
  "(parseDeploymentLogs (Some files) readFile infraInfo ctx = Inl MissingSnapshotError
      \<longleftrightarrow> infraInfo = None) \<and>
   (infraInfo \<noteq> None \<longrightarrow>
      parseDeploymentLogs readdir readFile infraInfo ctx \<noteq> Inl MissingSnapshotError) \<and>
   parseDeploymentLogs None readFile infraInfo ctx = Inl IoError \<and>
   (readInfraForCurrentJob readResult jsonParse = None
      \<longleftrightarrow> readResult = None \<or> (\<exists>content. readResult = Some content \<and> jsonParse content = None))"
proof (intro conjI)
  show "parseDeploymentLogs (Some files) readFile infraInfo ctx = Inl MissingSnapshotError
      \<longleftrightarrow> infraInfo = None"
    using fileLoop_error
    by (fastforce simp: parseDeploymentLogs_def Let_def split: option.splits sum.splits)
  show "infraInfo \<noteq> None \<longrightarrow>
      parseDeploymentLogs readdir readFile infraInfo ctx \<noteq> Inl MissingSnapshotError"
    using fileLoop_error
    by (fastforce simp: parseDeploymentLogs_def Let_def split: option.splits sum.splits)
  show "parseDeploymentLogs None readFile infraInfo ctx = Inl IoError"
    by (simp add: parseDeploymentLogs_def)
  show "readInfraForCurrentJob readResult jsonParse = None
      \<longleftrightarrow> readResult = None \<or> (\<exists>content. readResult = Some content \<and> jsonParse content = None)"
    by (cases readResult) (simp_all add: readInfraForCurrentJob_def)
qed

theorem missing_snapshot_iff_witness:
  "parseDeploymentLogs (Some [''a.json'']) exampleReadFile None exampleCtx = Inl MissingSnapshotError \<and>
   Some exampleInfra \<noteq> None \<and>
   parseDeploymentLogs (Some [''a.json'']) exampleReadFile (Some exampleInfra) exampleCtx
     \<noteq> Inl MissingSnapshotError \<and>
   parseDeploymentLogs None exampleReadFile (Some exampleInfra) exampleCtx = Inl IoError \<and>
   parseDeploymentLogs None exampleReadFile None exampleCtx = Inl IoError \<and>
   readInfraForCurrentJob None exampleJsonParse = None"
proof -
  note r0 = missing_snapshot_iff [of "[''a.json'']" exampleReadFile None exampleCtx None
                                     None exampleJsonParse]
  note r1 = missing_snapshot_iff [of "[''a.json'']" exampleReadFile "Some exampleInfra" exampleCtx
                                     "Some [''a.json'']" None exampleJsonParse]
  have a: "parseDeploymentLogs (Some [''a.json'']) exampleReadFile None exampleCtx =
             Inl MissingSnapshotError"
    using r0 [THEN conjunct1] by simp
  have b: "Some exampleInfra \<noteq> None" by simp
  have c: "parseDeploymentLogs (Some [''a.json'']) exampleReadFile (Some exampleInfra) exampleCtx
             \<noteq> Inl MissingSnapshotError"
    using r1 [THEN conjunct2, THEN conjunct1] b by (rule mp)
  have d: "parseDeploymentLogs None exampleReadFile (Some exampleInfra) exampleCtx = Inl IoError"
    by (rule r1 [THEN conjunct2, THEN conjunct2, THEN conjunct1])
  have e: "parseDeploymentLogs None exampleReadFile None exampleCtx = Inl IoError"
    by (rule r0 [THEN conjunct2, THEN conjunct2, THEN conjunct1])
  have f: "readInfraForCurrentJob None exampleJsonParse = None"
    using r0 [THEN conjunct2, THEN conjunct2, THEN conjunct2] by simp
  show ?thesis by (intro conjI a b c d e f)
qed

end
